theory Spec2Isabelle
  imports Complex_Main
begin

section \<open>Numbers and errors of the notebook\<close>

text \<open>
  The notebook \<^verbatim>\<open>examples/tutorial_optuna.ipynb\<close> defines a spiking network \<^verbatim>\<open>Net\<close> and
  a trainer \<^verbatim>\<open>SNNTrainer\<close> with a heuristic early stop. This theory embeds the control
  flow and the bookkeeping of both classes.

  A Python float is a finite number, one of the two infinities, or not-a-number. The
  finite values are idealised as reals: overflow is not modelled, and the arithmetic is
  exact except in \<open>track_step\<close>, where the rounding of each operation is a parameter. The
  comparison \<^verbatim>\<open><\<close> and the product \<^verbatim>\<open>*\<close> follow IEEE 754 on the special values: every
  comparison with not-a-number is false, and zero times an infinity is not-a-number.
\<close>

datatype pyfloat = Finite real | PInf | NInf | NaN

fun pf_less :: "pyfloat \<Rightarrow> pyfloat \<Rightarrow> bool" where
  "pf_less (Finite a) (Finite b) = (a < b)"
| "pf_less (Finite a) PInf = True"
| "pf_less (Finite a) NInf = False"
| "pf_less (Finite a) NaN = False"
| "pf_less PInf y = False"
| "pf_less NInf (Finite b) = True"
| "pf_less NInf PInf = True"
| "pf_less NInf NInf = False"
| "pf_less NInf NaN = False"
| "pf_less NaN y = False"

fun pf_le :: "pyfloat \<Rightarrow> pyfloat \<Rightarrow> bool" where
  "pf_le (Finite a) (Finite b) = (a \<le> b)"
| "pf_le (Finite a) PInf = True"
| "pf_le (Finite a) NInf = False"
| "pf_le (Finite a) NaN = False"
| "pf_le PInf (Finite b) = False"
| "pf_le PInf PInf = True"
| "pf_le PInf NInf = False"
| "pf_le PInf NaN = False"
| "pf_le NInf (Finite b) = True"
| "pf_le NInf PInf = True"
| "pf_le NInf NInf = True"
| "pf_le NInf NaN = False"
| "pf_le NaN y = False"

text \<open>The sign of an infinity times a finite factor; zero gives not-a-number.\<close>

definition signed_inf :: "real \<Rightarrow> pyfloat" where
  "signed_inf a = (if 0 < a then PInf else if a < 0 then NInf else NaN)"

fun pf_times :: "pyfloat \<Rightarrow> pyfloat \<Rightarrow> pyfloat" where
  "pf_times (Finite a) (Finite b) = Finite (a * b)"
| "pf_times (Finite a) PInf = signed_inf a"
| "pf_times (Finite a) NInf = signed_inf (- a)"
| "pf_times (Finite a) NaN = NaN"
| "pf_times PInf (Finite b) = signed_inf b"
| "pf_times PInf PInf = PInf"
| "pf_times PInf NInf = NInf"
| "pf_times PInf NaN = NaN"
| "pf_times NInf (Finite b) = signed_inf (- b)"
| "pf_times NInf PInf = NInf"
| "pf_times NInf NInf = PInf"
| "pf_times NInf NaN = NaN"
| "pf_times NaN y = NaN"

text \<open>
  The sum of two floats and the quotient of a float by an integer count, as NumPy
  computes them on its float scalars: no exception, the special values follow IEEE 754.
\<close>

fun pf_plus :: "pyfloat \<Rightarrow> pyfloat \<Rightarrow> pyfloat" where
  "pf_plus (Finite a) (Finite b) = Finite (a + b)"
| "pf_plus (Finite a) PInf = PInf"
| "pf_plus (Finite a) NInf = NInf"
| "pf_plus (Finite a) NaN = NaN"
| "pf_plus PInf (Finite b) = PInf"
| "pf_plus PInf PInf = PInf"
| "pf_plus PInf NInf = NaN"
| "pf_plus PInf NaN = NaN"
| "pf_plus NInf (Finite b) = NInf"
| "pf_plus NInf PInf = NaN"
| "pf_plus NInf NInf = NInf"
| "pf_plus NInf NaN = NaN"
| "pf_plus NaN y = NaN"

fun np_divide :: "pyfloat \<Rightarrow> nat \<Rightarrow> pyfloat" where
  "np_divide (Finite a) k =
     (if k = 0 then (if a = 0 then NaN else signed_inf a) else Finite (a / real k))"
| "np_divide PInf k = PInf"
| "np_divide NInf k = NInf"
| "np_divide NaN k = NaN"

text \<open>
  A float operation gives the float next to the exact result. \<open>rnd\<close> stands for that
  rounding of a finite result; doubles round to the nearest, ties to even. The special
  values are not rounded.
\<close>

definition pf_round :: "(real \<Rightarrow> real) \<Rightarrow> pyfloat \<Rightarrow> pyfloat" where
  "pf_round rnd v =
     (case v of Finite a \<Rightarrow> Finite (rnd a) | PInf \<Rightarrow> PInf | NInf \<Rightarrow> NInf | NaN \<Rightarrow> NaN)"

text \<open>
  The exceptions. \<^verbatim>\<open>AssertionError\<close> comes from the two \<^verbatim>\<open>assert\<close> statements of
  \<^verbatim>\<open>Net.__init__\<close>, \<^verbatim>\<open>ZeroDivisionError\<close> from the three divisions of the notebook.
  \<^verbatim>\<open>RuntimeError\<close> is what the tensor library raises for a layer of negative width and
  for stacking an empty list of tensors, \<^verbatim>\<open>ValueError\<close> what its optimizer raises for a
  negative learning rate. \<^verbatim>\<open>ConfigurationError\<close> is the name the specification uses; the
  notebook defines no such class and no path of the model below produces it.
\<close>

datatype py_error =
  AssertionError | ZeroDivisionError | RuntimeError | ValueError | ConfigurationError

section \<open>The network: layers and spike counters\<close>

datatype layer_kind = FirstLayer | InnerLayer | OutputLayer

text \<open>
  The fields of \<^verbatim>\<open>Net\<close> that the notebook reads and writes. The weights live in the
  tensor library; \<open>param_updates\<close> counts the optimizer steps applied to them, and
  \<open>training\<close> is the mode flag that \<^verbatim>\<open>net.train()\<close> and \<^verbatim>\<open>net.eval()\<close> set.
\<close>

record net =
  num_steps :: int
  num_hidden_neurons :: int
  num_hidden_layers :: int
  layers :: "layer_kind list"
  total_spike_count :: real
  forward_count :: nat
  training :: bool
  param_updates :: nat

definition reset_spikes :: "net \<Rightarrow> net" where
  "reset_spikes n = n\<lparr>total_spike_count := 0, forward_count := 0\<rparr>"

text \<open>\<^verbatim>\<open>for n in range(num_hidden_layers + 1)\<close>: the kind of the layer built at index n.\<close>

definition layer_at :: "int \<Rightarrow> nat \<Rightarrow> layer_kind" where
  "layer_at h n =
     (if n = 0 then FirstLayer else if int n < h then InnerLayer else OutputLayer)"

text \<open>
  \<^verbatim>\<open>Net.__init__\<close>: the two assertions, then the loop that builds the layers. Its first
  round builds \<^verbatim>\<open>nn.Linear(num_inputs, num_hidden_neurons)\<close>, which raises for a negative
  width. The number of time steps is stored unchecked.
\<close>

definition Net_init :: "int \<Rightarrow> int \<Rightarrow> int \<Rightarrow> real \<Rightarrow> py_error + net" where
  "Net_init steps neurons h beta1 =
     (if \<not> (0 \<le> beta1 \<and> beta1 \<le> 1) then Inl AssertionError
      else if \<not> (h \<ge> 0) then Inl AssertionError
      else if neurons < 0 then Inl RuntimeError
      else Inr (reset_spikes
        \<lparr>num_steps = steps, num_hidden_neurons = neurons, num_hidden_layers = h,
         layers = map (layer_at h) [0..<nat (h + 1)],
         total_spike_count = 0, forward_count = 0, training = True, param_updates = 0\<rparr>))"

text \<open>
  The forward pass over one batch. The spikes come out of the neuron library, so the
  batch carries them: \<open>spk step l\<close> is \<^verbatim>\<open>cur.sum().item()\<close> of layer \<open>l\<close> at time step
  \<open>step\<close>. The pass adds each of them to the running total, in the order of the two
  nested loops, and then counts itself. The membrane potentials and the spike records
  are tensors of the neuron library and stay outside the model. \<open>forward\<close> is the
  network these updates leave. The method then stacks the spike records: with no time
  step the list is empty and \<^verbatim>\<open>torch.stack\<close> raises, after the updates; \<open>forward_raises\<close>
  says when.
\<close>

definition forward :: "net \<Rightarrow> (nat \<Rightarrow> nat \<Rightarrow> real) \<Rightarrow> net" where
  "forward n spk =
     n\<lparr>total_spike_count :=
         fold (\<lambda>step tot. fold (\<lambda>l tot'. tot' + spk step l) [0..<length (layers n)] tot)
           [0..<nat (num_steps n)] (total_spike_count n),
       forward_count := forward_count n + 1\<rparr>"

definition forward_raises :: "net \<Rightarrow> bool" where
  "forward_raises n \<longleftrightarrow> num_steps n \<le> 0"

definition get_spikes_per_digit :: "net \<Rightarrow> py_error + real" where
  "get_spikes_per_digit n =
     (if forward_count n = 0 then Inl ZeroDivisionError
      else Inr (total_spike_count n / real (forward_count n)))"

section \<open>The trainer\<close>

text \<open>
  What the external capabilities return for one batch: its size \<^verbatim>\<open>data.size(0)\<close>, the
  spikes of the forward pass, the loss \<^verbatim>\<open>loss_val.item()\<close> and the accuracy
  \<^verbatim>\<open>SF.accuracy_rate(spk_rec, targets)\<close>.
\<close>

record batch =
  b_size :: nat
  b_spikes :: "nat \<Rightarrow> nat \<Rightarrow> real"
  b_loss :: pyfloat
  b_acc :: real

record trainer =
  net :: net
  num_epochs :: int
  t_num_steps :: int
  learning_rate :: real
  patience :: int
  sig_improvement :: real
  loss_hist :: "pyfloat list"
  acc_hist :: "real list"
  epochs :: nat
  batches :: nat

text \<open>
  \<^verbatim>\<open>SNNTrainer.__init__\<close>. It can fail at the division
  \<^verbatim>\<open>sig_improvement/(net.num_hidden_layers**3)\<close> and, after it, in
  \<^verbatim>\<open>torch.optim.Adam\<close>, which rejects a negative learning rate. The patience and the
  significance are stored as they come.
\<close>

definition SNNTrainer_init ::
  "net \<Rightarrow> int \<Rightarrow> int \<Rightarrow> real \<Rightarrow> int \<Rightarrow> real \<Rightarrow> py_error + trainer" where
  "SNNTrainer_init n epochs_limit steps lr pat sig =
     (if num_hidden_layers n ^ 3 = 0 then Inl ZeroDivisionError
      else if lr < 0 then Inl ValueError
      else Inr
        \<lparr>net = n, num_epochs = epochs_limit, t_num_steps = steps, learning_rate = lr,
         patience = pat,
         sig_improvement = sig / real_of_int (num_hidden_layers n ^ 3),
         loss_hist = [], acc_hist = [], epochs = 0, batches = 0\<rparr>)"

text \<open>
  The state of one call of \<^verbatim>\<open>train\<close>: the trainer and the three local variables
  \<^verbatim>\<open>acc\<close>, \<^verbatim>\<open>best_loss\<close> and \<^verbatim>\<open>loss_counter\<close>.
\<close>

record train_state =
  tr :: trainer
  acc :: real
  best_loss :: pyfloat
  loss_counter :: int

text \<open>
  The early-stop bookkeeping of one batch:
  \<^verbatim>\<open>if current_loss < (1-self.sig_improvement)*best_loss\<close>, on the pair of
  \<^verbatim>\<open>best_loss\<close> and \<^verbatim>\<open>loss_counter\<close>.
\<close>

definition track_loss :: "real \<Rightarrow> pyfloat \<Rightarrow> pyfloat \<times> int \<Rightarrow> pyfloat \<times> int" where
  "track_loss sig current_loss st =
     (if pf_less current_loss (pf_times (Finite (1 - sig)) (fst st))
      then (current_loss, 0)
      else (fst st, snd st + 1))"

text \<open>
  The same lines with the rounding of the machine written out: the difference
  \<^verbatim>\<open>1-self.sig_improvement\<close> and the product with \<^verbatim>\<open>best_loss\<close> are float operations, each
  rounded by \<open>rnd\<close>; the comparison of two floats is exact. \<open>track_loss\<close> is this step
  with nothing rounded. An overflow of the product is not modelled.
\<close>

definition track_step ::
  "(real \<Rightarrow> real) \<Rightarrow> real \<Rightarrow> pyfloat \<Rightarrow> pyfloat \<times> int \<Rightarrow> pyfloat \<times> int" where
  "track_step rnd sig current_loss st =
     (if pf_less current_loss (pf_round rnd (pf_times (Finite (rnd (1 - sig))) (fst st)))
      then (current_loss, 0)
      else (fst st, snd st + 1))"

text \<open>\<^verbatim>\<open>if epoch > 0 and loss_counter > self.patience\<close>\<close>

definition should_stop :: "nat \<Rightarrow> int \<Rightarrow> int \<Rightarrow> bool" where
  "should_stop epoch counter pat \<longleftrightarrow> epoch > 0 \<and> counter > pat"

text \<open>
  The body of the inner loop up to and including \<^verbatim>\<open>self.batches += 1\<close>, for batch
  \<open>i\<close> of the current epoch, when the forward pass returns. Logging is not modelled.
\<close>

definition train_batch :: "nat \<Rightarrow> batch \<Rightarrow> train_state \<Rightarrow> train_state" where
  "train_batch i b s =
     (let t = tr s;
          n1 = forward ((net t)\<lparr>training := True\<rparr>) (b_spikes b);
          n2 = n1\<lparr>param_updates := param_updates n1 + 1\<rparr>;
          current_loss = b_loss b;
          sample = (i mod 100 = 0 \<and> i \<noteq> 0);
          st = track_loss (sig_improvement t) current_loss (best_loss s, loss_counter s)
      in \<lparr>tr = t\<lparr>net := n2,
                  loss_hist := loss_hist t @ [current_loss],
                  acc_hist := (if sample then acc_hist t @ [b_acc b] else acc_hist t),
                  batches := batches t + 1\<rparr>,
          acc = (if sample then b_acc b else acc s),
          best_loss = fst st,
          loss_counter = snd st\<rparr>)"

text \<open>
  \<^verbatim>\<open>for i, (data, targets) in enumerate(train_loader)\<close>. The flag of the result says
  whether the \<^verbatim>\<open>return\<close> inside the loop was taken.
\<close>

fun batch_loop :: "nat \<Rightarrow> (nat \<times> batch) list \<Rightarrow> train_state \<Rightarrow> bool \<times> train_state" where
  "batch_loop epoch [] s = (False, s)"
| "batch_loop epoch ((i, b) # rest) s =
     (let s' = train_batch i b s
      in if should_stop epoch (loss_counter s') (patience (tr s')) then (True, s')
         else batch_loop epoch rest s')"

text \<open>
  \<^verbatim>\<open>train\<close> returns nothing; the two ways it ends are the \<^verbatim>\<open>return\<close> inside the
  loops and the end of the outer loop. The loops below follow a run whose forward passes
  return; on a network with no time step the first pass raises and its exception leaves
  \<^verbatim>\<open>train\<close> before a loss is recorded.
\<close>

datatype run_status = StoppedEarly | Completed

text \<open>
  \<^verbatim>\<open>for epoch in range(self.num_epochs)\<close>, over the epochs still to run. The loader
  gives the batches of each epoch in the order it yields them. An epoch that ran to its
  end is counted in \<^verbatim>\<open>self.epochs\<close>.
\<close>

fun epoch_loop ::
  "nat list \<Rightarrow> (nat \<Rightarrow> batch list) \<Rightarrow> train_state \<Rightarrow> run_status \<times> train_state" where
  "epoch_loop [] train_loader s = (Completed, s)"
| "epoch_loop (epoch # later) train_loader s =
     (case batch_loop epoch (enumerate 0 (train_loader epoch)) s of
        (True, s') \<Rightarrow> (StoppedEarly, s')
      | (False, s') \<Rightarrow>
          epoch_loop later train_loader (s'\<lparr>tr := (tr s')\<lparr>epochs := epochs (tr s') + 1\<rparr>\<rparr>))"

definition train_init :: "trainer \<Rightarrow> train_state" where
  "train_init t = \<lparr>tr = t, acc = 0, best_loss = PInf, loss_counter = 0\<rparr>"

definition train :: "trainer \<Rightarrow> (nat \<Rightarrow> batch list) \<Rightarrow> run_status \<times> train_state" where
  "train t train_loader =
     epoch_loop [0..<nat (num_epochs t)] train_loader (train_init t)"

text \<open>
  \<^verbatim>\<open>SF.accuracy_rate\<close> is a NumPy mean over the samples of the batch: the batch carries
  its value, and over an empty batch it is not-a-number.
\<close>

definition batch_accuracy :: "batch \<Rightarrow> pyfloat" where
  "batch_accuracy b = (if b_size b = 0 then NaN else Finite (b_acc b))"

text \<open>
  \<^verbatim>\<open>get_accuracy\<close>: the loop over the test batches carries the network and the two
  sums (\<open>total_n\<close> is the source's \<^verbatim>\<open>total\<close>). A forward pass that raises ends the loop
  and the routine with its exception. The routine leaves the trainer with the network
  the forward passes have changed. The closing division is Python's on an empty loader,
  where both sums are still the integer 0 and it raises, and NumPy's after the first
  batch has made \<^verbatim>\<open>total_acc\<close> a NumPy float.
\<close>

fun accuracy_loop ::
  "batch list \<Rightarrow> net \<times> pyfloat \<times> nat \<Rightarrow> (py_error + unit) \<times> net \<times> pyfloat \<times> nat" where
  "accuracy_loop [] st = (Inr (), st)"
| "accuracy_loop (b # rest) (n, total_acc, total_n) =
     (if forward_raises n
      then (Inl RuntimeError, forward n (b_spikes b), total_acc, total_n)
      else accuracy_loop rest
        (forward n (b_spikes b),
         pf_plus total_acc (pf_times (batch_accuracy b) (Finite (real (b_size b)))),
         total_n + b_size b))"

definition get_accuracy :: "trainer \<Rightarrow> batch list \<Rightarrow> (py_error + pyfloat) \<times> trainer" where
  "get_accuracy t test_loader =
     (case accuracy_loop test_loader ((net t)\<lparr>training := False\<rparr>, Finite 0, 0) of
        (Inl e, n, total_acc, total_n) \<Rightarrow> (Inl e, t\<lparr>net := n\<rparr>)
      | (Inr u, n, total_acc, total_n) \<Rightarrow>
          (if test_loader = [] then Inl ZeroDivisionError
           else Inr (np_divide total_acc total_n),
           t\<lparr>net := n\<rparr>))"

text \<open>
  Feeding a sequence of losses to the early-stop bookkeeping, from a given pair of best
  loss and stall counter.
\<close>

definition feed :: "real \<Rightarrow> pyfloat list \<Rightarrow> pyfloat \<times> int \<Rightarrow> pyfloat \<times> int" where
  "feed sig losses st = foldl (\<lambda>st' l. track_loss sig l st') st losses"

text \<open>
  The two constructor calls of \<^verbatim>\<open>optuna_objective\<close>: \<^verbatim>\<open>net = Net(...)\<close> and then
  \<^verbatim>\<open>trainer = SNNTrainer(net, ...)\<close>. An exception of the first ends the construction.
\<close>

definition construct_trainer ::
  "int \<Rightarrow> int \<Rightarrow> int \<Rightarrow> real \<Rightarrow> int \<Rightarrow> real \<Rightarrow> int \<Rightarrow> real \<Rightarrow> py_error + trainer" where
  "construct_trainer steps neurons h beta1 epochs_limit lr pat sig =
     (case Net_init steps neurons h beta1 of
        Inl e \<Rightarrow> Inl e
      | Inr n \<Rightarrow> SNNTrainer_init n epochs_limit steps lr pat sig)"

text \<open>
  The best loss of a run that is fed non-negative finite losses: still the initial
  infinity, or one of those losses.
\<close>

definition good_best :: "pyfloat \<Rightarrow> bool" where
  "good_best b = (case b of Finite v \<Rightarrow> 0 \<le> v | PInf \<Rightarrow> True | NInf \<Rightarrow> False | NaN \<Rightarrow> False)"

text \<open>
  The losses of a run in the order the loops meet them: for each epoch of the list, the
  losses of the batches the loader yields in that epoch.
\<close>

definition run_losses :: "(nat \<Rightarrow> batch list) \<Rightarrow> nat list \<Rightarrow> pyfloat list" where
  "run_losses train_loader es = concat (map (\<lambda>e. map b_loss (train_loader e)) es)"

section \<open>One batch of the training loop\<close>

lemma track_of_train_batch:
  "(best_loss (train_batch i b s), loss_counter (train_batch i b s)) =
     track_loss (sig_improvement (tr s)) (b_loss b) (best_loss s, loss_counter s)"
  by (simp add: train_batch_def Let_def)

lemma patience_train_batch: "patience (tr (train_batch i b s)) = patience (tr s)"
  by (simp add: train_batch_def Let_def)

lemma sig_improvement_train_batch:
  "sig_improvement (tr (train_batch i b s)) = sig_improvement (tr s)"
  by (simp add: train_batch_def Let_def)

lemma loss_hist_train_batch:
  "loss_hist (tr (train_batch i b s)) = loss_hist (tr s) @ [b_loss b]"
  by (simp add: train_batch_def Let_def)

lemma batches_train_batch: "batches (tr (train_batch i b s)) = batches (tr s) + 1"
  by (simp add: train_batch_def Let_def)

lemma epochs_train_batch: "epochs (tr (train_batch i b s)) = epochs (tr s)"
  by (simp add: train_batch_def Let_def)

lemma best_loss_train_batch:
  "best_loss (train_batch i b s) =
     fst (track_loss (sig_improvement (tr s)) (b_loss b) (best_loss s, loss_counter s))"
  by (simp add: train_batch_def Let_def)

lemma loss_counter_train_batch:
  "loss_counter (train_batch i b s) =
     snd (track_loss (sig_improvement (tr s)) (b_loss b) (best_loss s, loss_counter s))"
  by (simp add: train_batch_def Let_def)

section \<open>The early-stopping decision\<close>

text \<open>
  C1. The decision is true exactly when the epoch index is positive and the stall counter
  is strictly above the patience. After the first epoch a counter equal to the patience
  gives false and a counter one above it gives true; in epoch 0 the decision is false
  for every counter. The inner loop returns after a batch exactly on this decision,
  taken on the counter the batch leaves behind.
\<close>

theorem should_stop_iff:
  "(should_stop epoch counter pat \<longleftrightarrow> 0 < epoch \<and> pat < counter)
   \<and> (0 < epoch \<longrightarrow> \<not> should_stop epoch pat pat \<and> should_stop epoch (pat + 1) pat)
   \<and> \<not> should_stop 0 counter pat
   \<and> (fst (batch_loop epoch [(i, b)] s) \<longleftrightarrow>
        0 < epoch \<and> patience (tr s) < loss_counter (train_batch i b s))"
  by (simp add: should_stop_def Let_def patience_train_batch)

theorem should_stop_iff_witness:
  "(0::nat) < 1 \<and> \<not> should_stop 1 300 300 \<and> should_stop 1 301 300
   \<and> \<not> should_stop 0 301 300"
  using should_stop_iff [of 1 300 300] should_stop_iff [of 1 301 300]
    should_stop_iff [of 0 301 300]
  by simp

section \<open>The bookkeeping of the best loss and the stall counter\<close>

lemma track_loss_exact: "track_loss sig = track_step (\<lambda>x. x) sig"
  by (rule ext, rule ext) (simp add: track_loss_def track_step_def pf_round_def split: pyfloat.splits)



lemma feed_Nil: "feed sig [] st = st"
  by (simp add: feed_def)

lemma feed_Cons: "feed sig (l # ls) st = feed sig ls (track_loss sig l st)"
  by (simp add: feed_def)

lemma feed_snoc: "feed sig (ls @ [l]) st = track_loss sig l (feed sig ls st)"
  by (simp add: feed_def)

lemma feed_append: "feed sig (xs @ ys) st = feed sig ys (feed sig xs st)"
  by (simp add: feed_def)

subsection \<open>A constant loss\<close>

lemma track_first:
  assumes "sig < 1"
  shows "track_loss sig (Finite x) (PInf, c) = (Finite x, 0)"
  using assms by (simp add: track_loss_def signed_inf_def)

lemma track_same:
  assumes "0 \<le> sig" and "0 \<le> x"
  shows "track_loss sig (Finite x) (Finite x, c) = (Finite x, c + 1)"
proof -
  have "0 \<le> sig * x" using assms by simp
  then have "\<not> x < (1 - sig) * x" by (simp add: algebra_simps)
  then show ?thesis by (simp add: track_loss_def)
qed

lemma feed_replicate:
  assumes "0 \<le> sig" and "sig < 1" and "0 \<le> x"
  shows "feed sig (replicate (Suc k) (Finite x)) (PInf, 0) = (Finite x, int k)"
proof (induction k)
  case 0
  show ?case using assms by (simp add: feed_Cons feed_Nil track_first)
next
  case (Suc k)
  have "replicate (Suc (Suc k)) (Finite x) = replicate (Suc k) (Finite x) @ [Finite x]"
    by (simp add: replicate_append_same)
  then show ?case using Suc assms
    by (simp only: feed_snoc track_same) simp
qed

text \<open>
  C4, as the code has it. With a threshold in \<open>[0, 1)\<close> and a constant non-negative
  finite loss, fed from the initial state (best loss at positive infinity, stall counter
  0), the first call is an improvement over the infinite best loss: it stores the loss
  and leaves the counter at 0. Every later call adds exactly 1. So the counter is \<open>k\<close>
  after \<open>k + 1\<close> calls and reaches \<open>patience + 1\<close> after \<open>patience + 2\<close> calls.
\<close>

theorem constant_loss_stall:
  assumes "0 \<le> sig" and "sig < 1" and "0 \<le> x"
  shows "feed sig (replicate (Suc k) (Finite x)) (PInf, 0) = (Finite x, int k)
    \<and> snd (feed sig (replicate (Suc (Suc k)) (Finite x)) (PInf, 0)) =
        snd (feed sig (replicate (Suc k) (Finite x)) (PInf, 0)) + 1
    \<and> (0 \<le> pat \<longrightarrow>
          snd (feed sig (replicate (nat pat + 2) (Finite x)) (PInf, 0)) = pat + 1)"
proof -
  have "nat pat + 2 = Suc (Suc (nat pat))" by simp
  then show ?thesis
    using feed_replicate [OF assms] by (simp del: replicate.simps)
qed

theorem constant_loss_stall_witness:
  "(0::real) \<le> 5/100 \<and> (5/100::real) < 1 \<and> (0::real) \<le> 1 \<and> (0::int) \<le> 300
   \<and> feed (5/100) (replicate (Suc 2) (Finite 1)) (PInf, 0) = (Finite 1, 2)
   \<and> snd (feed (5/100) (replicate (nat 300 + 2) (Finite 1)) (PInf, 0)) = 300 + 1"
  using constant_loss_stall [of "5/100" 1 2 300] by simp

text \<open>
  The claim as worded fails: with threshold 0.05 and patience 1, a constant loss 1.0 fed
  \<open>patience + 1 = 2\<close> times from the initial state leaves the counter at 1, not at 2.
\<close>

theorem constant_loss_stall_counterexample:
  "snd (feed (5/100) (replicate (1 + 1) (Finite 1)) (PInf, 0)) \<noteq> 1 + 1"
  by (simp add: feed_def track_loss_def signed_inf_def eval_nat_numeral)

subsection \<open>The best loss over a run\<close>

lemma track_nonincreasing:
  assumes "0 \<le> sig" and "0 \<le> x" and "good_best (fst st)"
  shows "pf_le (fst (track_loss sig (Finite x) st)) (fst st)
    \<and> good_best (fst (track_loss sig (Finite x) st))"
proof (cases "fst st")
  case (Finite b)
  then have b: "0 \<le> b" using assms(3) by (simp add: good_best_def)
  have "0 \<le> sig * b" using assms(1) b by simp
  then have "(1 - sig) * b \<le> b" by (simp add: algebra_simps)
  then show ?thesis using Finite assms(2) b
    by (auto simp add: track_loss_def good_best_def)
next
  case PInf
  then show ?thesis using assms(2)
    by (simp add: track_loss_def good_best_def signed_inf_def)
next
  case NInf
  then show ?thesis using assms(3) by (simp add: good_best_def)
next
  case NaN
  then show ?thesis using assms(3) by (simp add: good_best_def)
qed

lemma feed_good:
  assumes "0 \<le> sig" and "\<forall>x\<in>set xs. 0 \<le> x" and "good_best (fst st)"
  shows "good_best (fst (feed sig (map Finite xs) st))"
  using assms(2,3)
proof (induction xs arbitrary: st)
  case Nil
  then show ?case by (simp add: feed_Nil)
next
  case (Cons x xs)
  then show ?case using track_nonincreasing [OF assms(1), of x st]
    by (simp add: feed_Cons)
qed

lemma feed_min:
  assumes "xs \<noteq> []"
  shows "fst (feed 0 (map Finite xs) (PInf, 0)) = Finite (Min (set xs))"
  using assms
proof (induction xs rule: rev_induct)
  case Nil
  then show ?case by simp
next
  case (snoc x xs)
  show ?case
  proof (cases "xs = []")
    case True
    then show ?thesis by (simp add: feed_Cons feed_Nil track_loss_def signed_inf_def)
  next
    case False
    then have ih: "fst (feed 0 (map Finite xs) (PInf, 0)) = Finite (Min (set xs))"
      using snoc.IH by simp
    have "Min (set (xs @ [x])) = min x (Min (set xs))"
      using False by simp
    then show ?thesis using ih
      by (simp add: feed_snoc track_loss_def min_def)
  qed
qed

text \<open>
  C5, as the code has it. For a threshold that is not negative and every sequence of
  non-negative finite losses fed from the initial state, the best loss after a call is at
  most the best loss before it; and with threshold 0 the best loss after every call is
  the minimum of the losses fed so far.
\<close>

theorem best_loss_nonincreasing:
  assumes "0 \<le> sig" and "\<forall>x\<in>set xs. 0 \<le> x"
  shows "(\<forall>k<length xs. pf_le (fst (feed sig (map Finite (take (Suc k) xs)) (PInf, 0)))
                              (fst (feed sig (map Finite (take k xs)) (PInf, 0))))
     \<and> (\<forall>k. 0 < k \<and> k \<le> length xs \<longrightarrow>
           fst (feed 0 (map Finite (take k xs)) (PInf, 0)) = Finite (Min (set (take k xs))))"
proof (intro conjI allI impI)
  fix k assume k: "k < length xs"
  have "\<forall>x\<in>set (take k xs). 0 \<le> x" using assms(2) by (meson in_set_takeD)
  then have g: "good_best (fst (feed sig (map Finite (take k xs)) (PInf, 0)))"
    using feed_good [OF assms(1), of "take k xs" "(PInf, 0)"] by (simp add: good_best_def)
  have x: "0 \<le> xs ! k" using assms(2) k by simp
  have "take (Suc k) xs = take k xs @ [xs ! k]" using k by (simp add: take_Suc_conv_app_nth)
  then show "pf_le (fst (feed sig (map Finite (take (Suc k) xs)) (PInf, 0)))
                   (fst (feed sig (map Finite (take k xs)) (PInf, 0)))"
    using track_nonincreasing [OF assms(1) x g] by (simp add: feed_snoc)
next
  fix k assume "0 < k \<and> k \<le> length xs"
  then have "take k xs \<noteq> []" by auto
  then show "fst (feed 0 (map Finite (take k xs)) (PInf, 0)) = Finite (Min (set (take k xs)))"
    by (rule feed_min)
qed

theorem best_loss_nonincreasing_witness:
  "(0::real) \<le> 5/100
   \<and> fst (feed (5/100) (map Finite [1, 9/10]) (PInf, 0)) = Finite (9/10)
   \<and> pf_le (fst (feed (5/100) (map Finite [1, 9/10]) (PInf, 0)))
            (fst (feed (5/100) (map Finite [1]) (PInf, 0)))
   \<and> fst (feed 0 (map Finite [1, 9/10]) (PInf, 0)) = Finite (Min (set [1, 9/10]))"
  using best_loss_nonincreasing [of "5/100" "[1, 9/10]"]
  by (simp add: feed_def track_loss_def signed_inf_def)

text \<open>
  The claim as worded fails: the constructor accepts a negative significance, the
  threshold is then negative, and the loss 1.5 after the loss 1.0 counts as an
  improvement over \<open>2 * 1.0\<close>: the best loss goes up from 1.0 to 1.5.
\<close>

theorem best_loss_nonincreasing_counterexample:
  "map_sum id sig_improvement (construct_trainer 25 299 1 (9/10) 30 (2/1000) 300 (- 1))
     = Inr (- 1)
   \<and> fst (feed (- 1) [Finite 1] (PInf, 0)) = Finite 1
   \<and> fst (feed (- 1) [Finite 1, Finite (3/2)] (PInf, 0)) = Finite (3/2)
   \<and> \<not> pf_le (fst (feed (- 1) [Finite 1, Finite (3/2)] (PInf, 0)))
              (fst (feed (- 1) [Finite 1] (PInf, 0)))"
  by (simp add: feed_def track_loss_def signed_inf_def construct_trainer_def Net_init_def
      SNNTrainer_init_def reset_spikes_def)

section \<open>Construction\<close>

text \<open>
  C3, as the code has it. Construction never raises a \<^verbatim>\<open>ConfigurationError\<close>. With fewer
  than one hidden layer it does fail, and no trainer exists that could start a batch:
  with an \<^verbatim>\<open>AssertionError\<close> of \<^verbatim>\<open>Net\<close> when the number is negative, and, when the number
  is 0 and \<^verbatim>\<open>Net\<close> has accepted its arguments, with the \<^verbatim>\<open>ZeroDivisionError\<close> of the
  threshold division. The patience and the base significance are not checked: whether
  construction fails, and with which error, does not depend on them, and a trainer that
  is constructed holds the given patience and the significance divided by the cube of
  the hidden layers, with empty histories and both counters at 0.
\<close>

theorem construction_outcome:
  "construct_trainer steps neurons h beta1 ep lr pat sig \<noteq> Inl ConfigurationError
   \<and> (h < 1 \<longrightarrow> (\<exists>e. construct_trainer steps neurons h beta1 ep lr pat sig = Inl e))
   \<and> (h < 0 \<longrightarrow> construct_trainer steps neurons h beta1 ep lr pat sig = Inl AssertionError)
   \<and> (h = 0 \<and> 0 \<le> beta1 \<and> beta1 \<le> 1 \<and> 0 \<le> neurons \<longrightarrow>
        construct_trainer steps neurons h beta1 ep lr pat sig = Inl ZeroDivisionError)
   \<and> map_sum id (\<lambda>t. ()) (construct_trainer steps neurons h beta1 ep lr pat sig) =
       map_sum id (\<lambda>t. ()) (construct_trainer steps neurons h beta1 ep lr pat' sig')
   \<and> (construct_trainer steps neurons h beta1 ep lr pat sig = Inr t \<longrightarrow>
        patience t = pat \<and> sig_improvement t = sig / real_of_int (h ^ 3)
        \<and> loss_hist t = [] \<and> acc_hist t = [] \<and> epochs t = 0 \<and> batches t = 0)"
  by (auto simp add: construct_trainer_def Net_init_def SNNTrainer_init_def reset_spikes_def
      split: if_splits)

text \<open>
  No hidden layer, a negative number of hidden layers, and two constructions that
  succeed: one with patience -1, one with base significance -4 on two hidden layers.
\<close>

theorem construction_outcome_witness:
  "construct_trainer 25 299 0 (9/10) 30 (2/1000) 300 (5/100) = Inl ZeroDivisionError
   \<and> construct_trainer 25 299 (- 1) (9/10) 30 (2/1000) 300 (5/100) = Inl AssertionError
   \<and> map_sum id patience (construct_trainer 25 299 1 (9/10) 30 (2/1000) (- 1) (5/100))
       = Inr (- 1)
   \<and> map_sum id sig_improvement (construct_trainer 25 299 2 (9/10) 30 (2/1000) 300 (- 4))
       = Inr (- 1/2)"
proof -
  obtain t1 where t1: "construct_trainer 25 299 1 (9/10) 30 (2/1000) (- 1) (5/100) = Inr t1"
    by (simp add: construct_trainer_def Net_init_def SNNTrainer_init_def reset_spikes_def)
  obtain t2 where t2: "construct_trainer 25 299 2 (9/10) 30 (2/1000) 300 (- 4) = Inr t2"
    by (simp add: construct_trainer_def Net_init_def SNNTrainer_init_def reset_spikes_def)
  have c1: "construct_trainer 25 299 0 (9/10) 30 (2/1000) 300 (5/100) = Inl ZeroDivisionError"
    using construction_outcome [of 25 299 0 "9/10" 30 "2/1000" 300 "5/100"] by simp
  have c2: "construct_trainer 25 299 (- 1) (9/10) 30 (2/1000) 300 (5/100) = Inl AssertionError"
    using construction_outcome [of 25 299 "- 1" "9/10" 30 "2/1000" 300 "5/100"] by simp
  have c3: "patience t1 = - 1"
    using construction_outcome [of 25 299 1 "9/10" 30 "2/1000" "- 1" "5/100" _ _ t1] t1
    by blast
  have "sig_improvement t2 = - 4 / real_of_int (2 ^ 3)"
    using construction_outcome [of 25 299 2 "9/10" 30 "2/1000" 300 "- 4" _ _ t2] t2
    by blast
  then have c4: "sig_improvement t2 = - 1/2" by simp
  show ?thesis unfolding t1 t2 using c1 c2 c3 c4 by simp
qed

text \<open>
  The claim as worded fails on each of its three conditions: no hidden layer gives a
  \<^verbatim>\<open>ZeroDivisionError\<close>, and a negative patience or a non-positive significance gives
  a trainer.
\<close>

theorem construction_counterexample:
  "construct_trainer 25 299 0 (9/10) 30 (2/1000) 300 (5/100) \<noteq> Inl ConfigurationError
   \<and> construct_trainer 25 299 1 (9/10) 30 (2/1000) (- 1) (5/100) \<noteq> Inl ConfigurationError
   \<and> construct_trainer 25 299 1 (9/10) 30 (2/1000) 300 (- 5/100) \<noteq> Inl ConfigurationError"
  by (simp add: construct_trainer_def Net_init_def SNNTrainer_init_def reset_spikes_def)

section \<open>Spikes per forward pass\<close>

text \<open>
  C10. \<^verbatim>\<open>get_spikes_per_digit\<close> divides the spike total by the count of forward passes.
  The count is 0 after \<^verbatim>\<open>reset_spikes\<close> and after construction, and whenever it is 0 the
  call ends in a \<^verbatim>\<open>ZeroDivisionError\<close>; with a count other than 0, as after a forward
  pass, it returns the quotient.
\<close>

theorem spikes_per_digit_division:
  "get_spikes_per_digit (reset_spikes n) = Inl ZeroDivisionError
   \<and> (Net_init steps neurons h beta1 = Inr n' \<longrightarrow>
        get_spikes_per_digit n' = Inl ZeroDivisionError)
   \<and> (forward_count n = 0 \<longrightarrow> get_spikes_per_digit n = Inl ZeroDivisionError)
   \<and> (forward_count n \<noteq> 0 \<longrightarrow>
        get_spikes_per_digit n = Inr (total_spike_count n / real (forward_count n)))
   \<and> (\<exists>v. get_spikes_per_digit (forward n spk) = Inr v)"
  by (auto simp add: get_spikes_per_digit_def reset_spikes_def Net_init_def forward_def
      split: if_splits)

theorem spikes_per_digit_division_witness:
  "Net_init 1 5 1 (9/10) =
     Inr \<lparr>num_steps = 1, num_hidden_neurons = 5, num_hidden_layers = 1,
          layers = [FirstLayer, OutputLayer],
          total_spike_count = 0, forward_count = 0, training = True, param_updates = 0\<rparr>
   \<and> get_spikes_per_digit
       \<lparr>num_steps = 1, num_hidden_neurons = 5, num_hidden_layers = 1,
        layers = [FirstLayer, OutputLayer],
        total_spike_count = 0, forward_count = 0, training = True, param_updates = 0\<rparr>
     = Inl ZeroDivisionError
   \<and> get_spikes_per_digit
       \<lparr>num_steps = 1, num_hidden_neurons = 5, num_hidden_layers = 1,
        layers = [FirstLayer, OutputLayer],
        total_spike_count = 6, forward_count = 2, training = True, param_updates = 0\<rparr>
     = Inr 3"
  using spikes_per_digit_division [of
      "\<lparr>num_steps = 1, num_hidden_neurons = 5, num_hidden_layers = 1,
        layers = [FirstLayer, OutputLayer],
        total_spike_count = 0, forward_count = 0, training = True, param_updates = 0\<rparr>"
      1 5 1 "9/10"]
    spikes_per_digit_division [of
      "\<lparr>num_steps = 1, num_hidden_neurons = 5, num_hidden_layers = 1,
        layers = [FirstLayer, OutputLayer],
        total_spike_count = 6, forward_count = 2, training = True, param_updates = 0\<rparr>"]
  by (simp add: Net_init_def layer_at_def reset_spikes_def eval_nat_numeral)

section \<open>The training loop\<close>

lemma batch_loop_append:
  "batch_loop e (xs @ ys) s =
     (case batch_loop e xs s of (True, s') \<Rightarrow> (True, s') | (False, s') \<Rightarrow> batch_loop e ys s')"
  by (induction xs arbitrary: s) (auto simp add: Let_def)

lemma epoch_loop_append:
  "epoch_loop (es1 @ es2) ld s =
     (case epoch_loop es1 ld s of
        (StoppedEarly, s') \<Rightarrow> (StoppedEarly, s')
      | (Completed, s') \<Rightarrow> epoch_loop es2 ld s')"
  by (induction es1 arbitrary: s) (auto split: prod.splits bool.splits)

lemma losses_enumerate:
  "map (\<lambda>p. b_loss (snd p)) (enumerate i bs) = map b_loss bs"
  by (induction bs arbitrary: i) simp_all

text \<open>
  What the inner loop has done when it ends: it has processed the first \<open>k\<close> batches
  and no other. A return from inside the loop comes with the stop decision true after
  the last of them; otherwise all batches were processed.
\<close>

lemma batch_loop_prefix:
  assumes "batch_loop e ibs s = (flag, s')"
  shows "\<exists>k\<le>length ibs.
      loss_hist (tr s') = loss_hist (tr s) @ take k (map (\<lambda>p. b_loss (snd p)) ibs)
    \<and> batches (tr s') = batches (tr s) + k
    \<and> epochs (tr s') = epochs (tr s)
    \<and> (flag \<longrightarrow> 0 < k \<and> should_stop e (loss_counter s') (patience (tr s')))
    \<and> (\<not> flag \<longrightarrow> k = length ibs)"
  using assms
proof (induction ibs arbitrary: s)
  case Nil
  then show ?case by auto
next
  case (Cons p ibs)
  obtain i b where p: "p = (i, b)" by (cases p)
  let ?s1 = "train_batch i b s"
  show ?case
  proof (cases "should_stop e (loss_counter ?s1) (patience (tr ?s1))")
    case True
    then have "flag" and "s' = ?s1" using Cons.prems p by (simp_all add: Let_def)
    then show ?thesis using True p
      by (intro exI [of _ 1])
        (simp add: loss_hist_train_batch batches_train_batch epochs_train_batch)
  next
    case False
    then have "batch_loop e ibs ?s1 = (flag, s')" using Cons.prems p by (simp add: Let_def)
    from Cons.IH [OF this] obtain k where k: "k \<le> length ibs"
      "loss_hist (tr s') = loss_hist (tr ?s1) @ take k (map (\<lambda>p. b_loss (snd p)) ibs)"
      "batches (tr s') = batches (tr ?s1) + k"
      "epochs (tr s') = epochs (tr ?s1)"
      "flag \<longrightarrow> 0 < k \<and> should_stop e (loss_counter s') (patience (tr s'))"
      "\<not> flag \<longrightarrow> k = length ibs"
      by blast
    then show ?thesis using p
      by (intro exI [of _ "Suc k"])
        (simp add: loss_hist_train_batch batches_train_batch epochs_train_batch)
  qed
qed

lemma epoch_loop_prefix:
  assumes "epoch_loop es ld s = (st, s')"
  shows "\<exists>k\<le>length (run_losses ld es).
      loss_hist (tr s') = loss_hist (tr s) @ take k (run_losses ld es)
    \<and> batches (tr s') = batches (tr s) + k
    \<and> (st = Completed \<longrightarrow>
          k = length (run_losses ld es) \<and> epochs (tr s') = epochs (tr s) + length es)"
  using assms
proof (induction es arbitrary: s)
  case Nil
  then show ?case by (auto simp add: run_losses_def)
next
  case (Cons e es)
  obtain flag s1 where b: "batch_loop e (enumerate 0 (ld e)) s = (flag, s1)"
    by (cases "batch_loop e (enumerate 0 (ld e)) s")
  from batch_loop_prefix [OF b] obtain k1 where k1: "k1 \<le> length (ld e)"
      "loss_hist (tr s1) = loss_hist (tr s) @ take k1 (map b_loss (ld e))"
      "batches (tr s1) = batches (tr s) + k1"
      "epochs (tr s1) = epochs (tr s)"
      "\<not> flag \<longrightarrow> k1 = length (ld e)"
    unfolding losses_enumerate by auto
  have r: "run_losses ld (e # es) = map b_loss (ld e) @ run_losses ld es"
    by (simp add: run_losses_def)
  show ?case
  proof (cases flag)
    case True
    then have "st = StoppedEarly" and "s' = s1" using Cons.prems b by simp_all
    then show ?thesis using k1 r by (intro exI [of _ k1]) simp
  next
    case False
    let ?s2 = "s1\<lparr>tr := (tr s1)\<lparr>epochs := epochs (tr s1) + 1\<rparr>\<rparr>"
    have "epoch_loop es ld ?s2 = (st, s')" using Cons.prems b False by simp
    from Cons.IH [OF this] obtain k2 where k2: "k2 \<le> length (run_losses ld es)"
      "loss_hist (tr s') = loss_hist (tr ?s2) @ take k2 (run_losses ld es)"
      "batches (tr s') = batches (tr ?s2) + k2"
      "st = Completed \<longrightarrow>
         k2 = length (run_losses ld es) \<and> epochs (tr s') = epochs (tr ?s2) + length es"
      by blast
    have "k1 = length (ld e)" using False k1 by simp
    then show ?thesis using k1 k2 r
      by (intro exI [of _ "length (ld e) + k2"]) simp
  qed
qed

text \<open>
  The pair of best loss and stall counter that a run ends with is the pair that feeding
  the processed losses to the bookkeeping gives. So the statements about \<open>feed\<close> are
  statements about \<^verbatim>\<open>train\<close>.
\<close>

lemma batch_loop_tracker:
  assumes "batch_loop e ibs s = (flag, s')"
  shows "\<exists>k\<le>length ibs.
      loss_hist (tr s') = loss_hist (tr s) @ take k (map (\<lambda>p. b_loss (snd p)) ibs)
    \<and> (best_loss s', loss_counter s') =
        feed (sig_improvement (tr s)) (take k (map (\<lambda>p. b_loss (snd p)) ibs))
          (best_loss s, loss_counter s)
    \<and> sig_improvement (tr s') = sig_improvement (tr s)
    \<and> (\<not> flag \<longrightarrow> k = length ibs)"
  using assms
proof (induction ibs arbitrary: s)
  case Nil
  then show ?case by (auto simp add: feed_Nil)
next
  case (Cons p ibs)
  obtain i b where p: "p = (i, b)" by (cases p)
  let ?s1 = "train_batch i b s"
  show ?case
  proof (cases "should_stop e (loss_counter ?s1) (patience (tr ?s1))")
    case True
    then have "flag" and "s' = ?s1" using Cons.prems p by (simp_all add: Let_def)
    then show ?thesis using p track_of_train_batch [of i b s]
      by (intro exI [of _ 1])
        (simp add: loss_hist_train_batch sig_improvement_train_batch feed_Cons feed_Nil)
  next
    case False
    then have "batch_loop e ibs ?s1 = (flag, s')" using Cons.prems p by (simp add: Let_def)
    from Cons.IH [OF this] obtain k where k: "k \<le> length ibs"
      "loss_hist (tr s') = loss_hist (tr ?s1) @ take k (map (\<lambda>p. b_loss (snd p)) ibs)"
      "(best_loss s', loss_counter s') =
         feed (sig_improvement (tr ?s1)) (take k (map (\<lambda>p. b_loss (snd p)) ibs))
           (best_loss ?s1, loss_counter ?s1)"
      "sig_improvement (tr s') = sig_improvement (tr ?s1)"
      "\<not> flag \<longrightarrow> k = length ibs"
      by blast
    then show ?thesis using p track_of_train_batch [of i b s]
      by (intro exI [of _ "Suc k"])
        (simp add: loss_hist_train_batch sig_improvement_train_batch feed_Cons)
  qed
qed

lemma epoch_loop_tracker:
  assumes "epoch_loop es ld s = (st, s')"
  shows "\<exists>k\<le>length (run_losses ld es).
      loss_hist (tr s') = loss_hist (tr s) @ take k (run_losses ld es)
    \<and> (best_loss s', loss_counter s') =
        feed (sig_improvement (tr s)) (take k (run_losses ld es))
          (best_loss s, loss_counter s)"
  using assms
proof (induction es arbitrary: s)
  case Nil
  then show ?case by (auto simp add: run_losses_def feed_Nil)
next
  case (Cons e es)
  obtain flag s1 where b: "batch_loop e (enumerate 0 (ld e)) s = (flag, s1)"
    by (cases "batch_loop e (enumerate 0 (ld e)) s")
  from batch_loop_tracker [OF b] obtain k1 where k1: "k1 \<le> length (ld e)"
      "loss_hist (tr s1) = loss_hist (tr s) @ take k1 (map b_loss (ld e))"
      "(best_loss s1, loss_counter s1) =
         feed (sig_improvement (tr s)) (take k1 (map b_loss (ld e)))
           (best_loss s, loss_counter s)"
      "sig_improvement (tr s1) = sig_improvement (tr s)"
      "\<not> flag \<longrightarrow> k1 = length (ld e)"
    unfolding losses_enumerate by auto
  have r: "run_losses ld (e # es) = map b_loss (ld e) @ run_losses ld es"
    by (simp add: run_losses_def)
  show ?case
  proof (cases flag)
    case True
    then have "st = StoppedEarly" and "s' = s1" using Cons.prems b by simp_all
    then show ?thesis using k1 r by (intro exI [of _ k1]) simp
  next
    case False
    let ?s2 = "s1\<lparr>tr := (tr s1)\<lparr>epochs := epochs (tr s1) + 1\<rparr>\<rparr>"
    have "epoch_loop es ld ?s2 = (st, s')" using Cons.prems b False by simp
    from Cons.IH [OF this] obtain k2 where k2: "k2 \<le> length (run_losses ld es)"
      "loss_hist (tr s') = loss_hist (tr ?s2) @ take k2 (run_losses ld es)"
      "(best_loss s', loss_counter s') =
        feed (sig_improvement (tr ?s2)) (take k2 (run_losses ld es))
          (best_loss ?s2, loss_counter ?s2)"
      by blast
    have "k1 = length (ld e)" using False k1 by simp
    then show ?thesis using k1 k2 r
      by (intro exI [of _ "length (ld e) + k2"]) (simp add: feed_append)
  qed
qed

lemma train_feed:
  assumes "train t ld = (st, s')"
  shows "\<exists>k\<le>length (run_losses ld [0..<nat (num_epochs t)]).
      loss_hist (tr s') = loss_hist t @ take k (run_losses ld [0..<nat (num_epochs t)])
    \<and> (best_loss s', loss_counter s') =
        feed (sig_improvement t) (take k (run_losses ld [0..<nat (num_epochs t)])) (PInf, 0)"
  using epoch_loop_tracker [of "[0..<nat (num_epochs t)]" ld "train_init t" st s'] assms
  by (simp add: train_def train_init_def)

subsection \<open>The early stop ends the run\<close>

lemma train_stops_at:
  assumes "e < nat (num_epochs t)"
    and "epoch_loop [0..<e] ld (train_init t) = (Completed, s)"
    and "ld e = pre @ b # rest"
    and "batch_loop e (enumerate 0 pre) s = (False, s1)"
    and "should_stop e (loss_counter (train_batch (length pre) b s1)) (patience (tr s1))"
  shows "train t ld = (StoppedEarly, train_batch (length pre) b s1)
    \<and> loss_hist (tr (train_batch (length pre) b s1)) =
        loss_hist t @ run_losses ld [0..<e] @ map b_loss pre @ [b_loss b]
    \<and> batches (tr (train_batch (length pre) b s1)) =
        batches t + length (run_losses ld [0..<e]) + length pre + 1
    \<and> epochs (tr (train_batch (length pre) b s1)) = epochs t + e"
proof -
  let ?s2 = "train_batch (length pre) b s1"
  have "enumerate 0 (ld e) =
      enumerate 0 pre @ (length pre, b) # enumerate (Suc (length pre)) rest"
    using assms(3) by (simp add: enumerate_append_eq)
  then have bl: "batch_loop e (enumerate 0 (ld e)) s = (True, ?s2)"
    using assms(4,5) by (simp add: batch_loop_append Let_def patience_train_batch)
  have "[0..<nat (num_epochs t)] = [0..<e] @ e # [Suc e..<nat (num_epochs t)]"
  proof -
    have "[0..<e + (nat (num_epochs t) - e)] = [0..<e] @ [e..<e + (nat (num_epochs t) - e)]"
      by (rule upt_add_eq_append) simp
    then show ?thesis using assms(1) by (simp add: upt_conv_Cons)
  qed
  then have 1: "train t ld = (StoppedEarly, ?s2)"
    using assms(2) bl by (simp add: train_def epoch_loop_append)
  from epoch_loop_prefix [OF assms(2)] have s:
    "loss_hist (tr s) = loss_hist t @ run_losses ld [0..<e]"
    "batches (tr s) = batches t + length (run_losses ld [0..<e])"
    "epochs (tr s) = epochs t + e"
    by (auto simp add: train_init_def)
  from batch_loop_prefix [OF assms(4)] have s1:
    "loss_hist (tr s1) = loss_hist (tr s) @ map b_loss pre"
    "batches (tr s1) = batches (tr s) + length pre"
    "epochs (tr s1) = epochs (tr s)"
    unfolding losses_enumerate by auto
  show ?thesis using 1 s s1
    by (simp add: loss_hist_train_batch batches_train_batch epochs_train_batch)
qed

text \<open>
  C9. Take a batch \<open>b\<close> of epoch \<open>e\<close> that the run reaches: the epochs before \<open>e\<close> ran to
  their end and the batches \<open>pre\<close> before \<open>b\<close> in epoch \<open>e\<close> were processed without a
  stop. When the stop decision is true after \<open>b\<close>, \<^verbatim>\<open>train\<close> returns at once with the
  state that \<open>b\<close> left: the histories end with \<open>b\<close>, the batch counter has counted up
  to \<open>b\<close>, the epoch counter has not counted epoch \<open>e\<close>, and neither the remaining
  batches \<open>rest\<close> of the epoch nor any later epoch has left a trace. And however a run
  ends, what it has processed is a prefix of the batches in loop order, the whole of it
  when the run completed; the state returned is final.
\<close>

theorem early_stop_halts:
  "(e < nat (num_epochs t)
     \<and> epoch_loop [0..<e] ld (train_init t) = (Completed, s)
     \<and> ld e = pre @ b # rest
     \<and> batch_loop e (enumerate 0 pre) s = (False, s1)
     \<and> should_stop e (loss_counter (train_batch (length pre) b s1)) (patience (tr s1))
    \<longrightarrow> train t ld = (StoppedEarly, train_batch (length pre) b s1)
       \<and> loss_hist (tr (train_batch (length pre) b s1)) =
           loss_hist t @ run_losses ld [0..<e] @ map b_loss pre @ [b_loss b]
       \<and> batches (tr (train_batch (length pre) b s1)) =
           batches t + length (run_losses ld [0..<e]) + length pre + 1
       \<and> epochs (tr (train_batch (length pre) b s1)) = epochs t + e)
   \<and> (train t ld = (st, s')
    \<longrightarrow> (\<exists>k\<le>length (run_losses ld [0..<nat (num_epochs t)]).
          loss_hist (tr s') = loss_hist t @ take k (run_losses ld [0..<nat (num_epochs t)])
        \<and> batches (tr s') = batches t + k
        \<and> (st = Completed \<longrightarrow>
              k = length (run_losses ld [0..<nat (num_epochs t)])
            \<and> epochs (tr s') = epochs t + nat (num_epochs t))))"
proof (intro conjI impI)
  assume "train t ld = (st, s')"
  then have "epoch_loop [0..<nat (num_epochs t)] ld (train_init t) = (st, s')"
    by (simp add: train_def)
  from epoch_loop_prefix [OF this]
  show "\<exists>k\<le>length (run_losses ld [0..<nat (num_epochs t)]).
          loss_hist (tr s') = loss_hist t @ take k (run_losses ld [0..<nat (num_epochs t)])
        \<and> batches (tr s') = batches t + k
        \<and> (st = Completed \<longrightarrow>
              k = length (run_losses ld [0..<nat (num_epochs t)])
            \<and> epochs (tr s') = epochs t + nat (num_epochs t))"
    by (simp add: train_init_def)
next
  assume a: "e < nat (num_epochs t)
     \<and> epoch_loop [0..<e] ld (train_init t) = (Completed, s)
     \<and> ld e = pre @ b # rest
     \<and> batch_loop e (enumerate 0 pre) s = (False, s1)
     \<and> should_stop e (loss_counter (train_batch (length pre) b s1)) (patience (tr s1))"
  then have r: "train t ld = (StoppedEarly, train_batch (length pre) b s1)
    \<and> loss_hist (tr (train_batch (length pre) b s1)) =
        loss_hist t @ run_losses ld [0..<e] @ map b_loss pre @ [b_loss b]
    \<and> batches (tr (train_batch (length pre) b s1)) =
        batches t + length (run_losses ld [0..<e]) + length pre + 1
    \<and> epochs (tr (train_batch (length pre) b s1)) = epochs t + e"
    by (intro train_stops_at [of e t ld s pre b rest s1]) simp_all
  from r show "train t ld = (StoppedEarly, train_batch (length pre) b s1)" by simp
  from r show "loss_hist (tr (train_batch (length pre) b s1)) =
        loss_hist t @ run_losses ld [0..<e] @ map b_loss pre @ [b_loss b]" by simp
  from r show "batches (tr (train_batch (length pre) b s1)) =
        batches t + length (run_losses ld [0..<e]) + length pre + 1" by simp
  from r show "epochs (tr (train_batch (length pre) b s1)) = epochs t + e" by simp
qed

text \<open>
  A run of two epochs of three batches each, every loss 1.0, patience 3: epoch 0 leaves
  the stall counter at 2, the first batch of epoch 1 takes it to 3 and the second to 4,
  where the run stops; the third batch of epoch 1 is not processed.
\<close>

theorem early_stop_halts_witness:
  "(case construct_trainer 1 5 1 (9/10) 2 (2/1000) 3 (5/100) of
      Inl e \<Rightarrow> False
    | Inr t \<Rightarrow>
        fst (train t (\<lambda>epoch. replicate 3
               \<lparr>b_size = 1, b_spikes = (\<lambda>step l. 2), b_loss = Finite 1, b_acc = 1\<rparr>))
          = StoppedEarly
      \<and> loss_hist (tr (snd (train t (\<lambda>epoch. replicate 3
               \<lparr>b_size = 1, b_spikes = (\<lambda>step l. 2), b_loss = Finite 1, b_acc = 1\<rparr>))))
          = replicate 5 (Finite 1)
      \<and> batches (tr (snd (train t (\<lambda>epoch. replicate 3
               \<lparr>b_size = 1, b_spikes = (\<lambda>step l. 2), b_loss = Finite 1, b_acc = 1\<rparr>))))
          = 5)"
proof -
  let ?B = "\<lparr>b_size = 1, b_spikes = (\<lambda>step l. 2), b_loss = Finite 1, b_acc = 1\<rparr>"
  let ?ld = "\<lambda>epoch::nat. replicate 3 ?B"
  let ?T = "\<lparr>net = \<lparr>num_steps = 1, num_hidden_neurons = 5, num_hidden_layers = 1,
         layers = [FirstLayer, OutputLayer],
         total_spike_count = 0, forward_count = 0, training = True, param_updates = 0\<rparr>,
        num_epochs = 2, t_num_steps = 1, learning_rate = 2/1000,
        patience = 3, sig_improvement = 5/100, loss_hist = [],
        acc_hist = [], epochs = 0, batches = 0\<rparr>"
  note ev = train_init_def eval_nat_numeral Let_def should_stop_def
     best_loss_train_batch loss_counter_train_batch patience_train_batch
     sig_improvement_train_batch loss_hist_train_batch batches_train_batch
     track_loss_def signed_inf_def
  define s where "s = snd (epoch_loop [0..<1] ?ld (train_init ?T))"
  define s1 where "s1 = snd (batch_loop 1 (enumerate 0 [?B]) s)"
  have c: "construct_trainer 1 5 1 (9/10) 2 (2/1000) 3 (5/100) = Inr ?T"
    by (simp add: construct_trainer_def Net_init_def SNNTrainer_init_def reset_spikes_def
        layer_at_def eval_nat_numeral)
  have h1: "1 < nat (num_epochs ?T)" by simp
  have h2: "epoch_loop [0..<1] ?ld (train_init ?T) = (Completed, s)"
    by (simp add: s_def ev)
  have h3: "?ld 1 = [?B] @ ?B # [?B]" by (simp add: eval_nat_numeral)
  have h4: "batch_loop 1 (enumerate 0 [?B]) s = (False, s1)"
    by (simp add: s1_def s_def ev)
  have h5: "should_stop 1 (loss_counter (train_batch (length [?B]) ?B s1)) (patience (tr s1))"
    by (simp add: s1_def s_def ev)
  have r: "run_losses ?ld [0..<1] = replicate 3 (Finite 1)"
    by (simp add: run_losses_def eval_nat_numeral)
  from early_stop_halts [of 1 ?T ?ld s "[?B]" ?B "[?B]" s1] h1 h2 h3 h4 h5
  have "train ?T ?ld = (StoppedEarly, train_batch (length [?B]) ?B s1)
       \<and> loss_hist (tr (train_batch (length [?B]) ?B s1)) =
           loss_hist ?T @ run_losses ?ld [0..<1] @ map b_loss [?B] @ [b_loss ?B]
       \<and> batches (tr (train_batch (length [?B]) ?B s1)) =
           batches ?T + length (run_losses ?ld [0..<1]) + length [?B] + 1"
    by blast
  then show ?thesis unfolding c r by (simp add: eval_nat_numeral)
qed

section \<open>The scenario of the specification\<close>



section \<open>The evaluation routine\<close>

lemma forward_frame:
  "forward_count (forward n spk) = forward_count n + 1"
  "param_updates (forward n spk) = param_updates n"
  "training (forward n spk) = training n"
  "layers (forward n spk) = layers n"
  "num_steps (forward n spk) = num_steps n"
  by (simp_all add: forward_def)

lemma forward_raises_forward: "forward_raises (forward n spk) = forward_raises n"
  by (simp add: forward_raises_def forward_frame)

lemma fold_plus: "fold (\<lambda>x tot. tot + f x) xs (a::real) = a + sum_list (map f xs)"
  by (induction xs arbitrary: a) simp_all

lemma forward_spikes:
  "total_spike_count (forward n spk) =
     total_spike_count n
       + (\<Sum>step = 0..<nat (num_steps n). \<Sum>l = 0..<length (layers n). spk step l)"
  by (simp add: forward_def fold_plus interv_sum_list_conv_sum_set_nat)

lemma fold_forward_frame:
  "forward_count (fold (\<lambda>b n'. forward n' (b_spikes b)) bs n) = forward_count n + length bs
   \<and> param_updates (fold (\<lambda>b n'. forward n' (b_spikes b)) bs n) = param_updates n
   \<and> training (fold (\<lambda>b n'. forward n' (b_spikes b)) bs n) = training n
   \<and> layers (fold (\<lambda>b n'. forward n' (b_spikes b)) bs n) = layers n
   \<and> num_steps (fold (\<lambda>b n'. forward n' (b_spikes b)) bs n) = num_steps n"
  by (induction bs arbitrary: n) (simp_all add: forward_frame)

lemma fold_forward_spikes:
  "total_spike_count (fold (\<lambda>b n'. forward n' (b_spikes b)) bs n) =
     total_spike_count n
       + sum_list (map (\<lambda>b. \<Sum>step = 0..<nat (num_steps n).
                                \<Sum>l = 0..<length (layers n). b_spikes b step l) bs)"
  by (induction bs arbitrary: n) (simp_all add: forward_spikes forward_frame)

text \<open>
  On a network whose forward pass returns, over batches none of which is empty, the loop
  runs to its end with the two sums.
\<close>

lemma accuracy_loop_runs:
  assumes "\<not> forward_raises n" and "\<forall>b\<in>set bs. 0 < b_size b"
  shows "accuracy_loop bs (n, Finite a, k) =
     (Inr (), fold (\<lambda>b n'. forward n' (b_spikes b)) bs n,
      Finite (a + sum_list (map (\<lambda>b. b_acc b * real (b_size b)) bs)),
      k + sum_list (map b_size bs))"
  using assms
proof (induction bs arbitrary: n a k)
  case Nil
  then show ?case by simp
next
  case (Cons b bs)
  have "batch_accuracy b = Finite (b_acc b)"
    using Cons.prems(2) by (simp add: batch_accuracy_def)
  moreover have "\<not> forward_raises (forward n (b_spikes b))"
    using Cons.prems(1) by (simp add: forward_raises_forward)
  ultimately show ?case
    using Cons.IH [of "forward n (b_spikes b)"] Cons.prems
    by (simp add: algebra_simps)
qed

lemma accuracy_loop_net:
  assumes "\<not> forward_raises n"
  shows "fst (snd (accuracy_loop bs (n, a, k))) = fold (\<lambda>b n'. forward n' (b_spikes b)) bs n"
  using assms
  by (induction bs arbitrary: n a k) (simp_all add: forward_raises_forward)

text \<open>Whether the loop raises or not, it only passes the network through forward passes.\<close>

lemma accuracy_loop_frame:
  "param_updates (fst (snd (accuracy_loop bs (n, a, k)))) = param_updates n
   \<and> layers (fst (snd (accuracy_loop bs (n, a, k)))) = layers n
   \<and> training (fst (snd (accuracy_loop bs (n, a, k)))) = training n
   \<and> num_steps (fst (snd (accuracy_loop bs (n, a, k)))) = num_steps n"
  by (induction bs arbitrary: n a k) (simp_all add: forward_frame forward_raises_forward)

lemma get_accuracy_state:
  "snd (get_accuracy t bs) =
     t\<lparr>net := fst (snd (accuracy_loop bs ((net t)\<lparr>training := False\<rparr>, Finite 0, 0)))\<rparr>"
  by (simp add: get_accuracy_def split: prod.splits sum.splits)

lemma weighted_sum_bounds:
  assumes "\<forall>b\<in>set bs. 0 \<le> b_acc b \<and> b_acc b \<le> 1"
  shows "0 \<le> sum_list (map (\<lambda>b. b_acc b * real (b_size b)) bs)
    \<and> sum_list (map (\<lambda>b. b_acc b * real (b_size b)) bs) \<le> real (sum_list (map b_size bs))"
  using assms
proof (induction bs)
  case Nil
  then show ?case by simp
next
  case (Cons b bs)
  have "b_acc b * real (b_size b) \<le> 1 * real (b_size b)"
    using Cons.prems by (intro mult_right_mono) simp_all
  moreover have "0 \<le> b_acc b * real (b_size b)" using Cons.prems by simp
  ultimately show ?case using Cons by simp
qed

lemma get_accuracy_value:
  assumes "0 < num_steps (net t)" and "bs \<noteq> []" and "\<forall>b\<in>set bs. 0 < b_size b"
  shows "fst (get_accuracy t bs) =
      Inr (Finite (sum_list (map (\<lambda>b. b_acc b * real (b_size b)) bs)
                    / real (sum_list (map b_size bs))))
    \<and> 0 < sum_list (map b_size bs)"
proof -
  have r: "\<not> forward_raises ((net t)\<lparr>training := False\<rparr>)"
    using assms(1) by (simp add: forward_raises_def)
  have pos: "0 < sum_list (map b_size bs)"
    using assms(2,3) by (cases bs) auto
  show ?thesis
    using accuracy_loop_runs [OF r assms(3), of 0 0] assms(2) pos
    by (simp add: get_accuracy_def del: sum_list_eq_0_iff)
qed

text \<open>
  C6, as the code has it. On a network with at least one time step, for every non-empty
  sequence of batches none of which is empty, the routine returns the size-weighted
  average \<open>sum (accuracy * size) / sum size\<close>, and the value lies in \<open>[0, 1]\<close> when
  every batch accuracy does. Two batches of sizes 3 and 1 with accuracies 1.0 and 0.0
  give 0.75, which is not the mean 0.5 of the two accuracies. On the empty sequence the
  routine raises a \<^verbatim>\<open>ZeroDivisionError\<close>.
\<close>

theorem weighted_accuracy:
  "(0 < num_steps (net t) \<and> bs \<noteq> [] \<and> (\<forall>b\<in>set bs. 0 < b_size b) \<longrightarrow>
      fst (get_accuracy t bs) =
        Inr (Finite (sum_list (map (\<lambda>b. b_acc b * real (b_size b)) bs)
                      / real (sum_list (map b_size bs)))))
   \<and> (0 < num_steps (net t) \<and> bs \<noteq> []
        \<and> (\<forall>b\<in>set bs. 0 < b_size b \<and> 0 \<le> b_acc b \<and> b_acc b \<le> 1) \<longrightarrow>
        (\<exists>v. fst (get_accuracy t bs) = Inr (Finite v) \<and> 0 \<le> v \<and> v \<le> 1))
   \<and> (0 < num_steps (net t)
        \<and> b_size b1 = 3 \<and> b_acc b1 = 1 \<and> b_size b2 = 1 \<and> b_acc b2 = 0 \<longrightarrow>
        fst (get_accuracy t [b1, b2]) = Inr (Finite (75/100))
      \<and> fst (get_accuracy t [b1, b2]) \<noteq> Inr (Finite ((b_acc b1 + b_acc b2) / 2)))
   \<and> fst (get_accuracy t []) = Inl ZeroDivisionError"
proof (intro conjI impI)
  show "fst (get_accuracy t bs) =
        Inr (Finite (sum_list (map (\<lambda>b. b_acc b * real (b_size b)) bs)
                      / real (sum_list (map b_size bs))))"
    if "0 < num_steps (net t) \<and> bs \<noteq> [] \<and> (\<forall>b\<in>set bs. 0 < b_size b)"
    using that get_accuracy_value [of t bs] by blast
  show "fst (get_accuracy t []) = Inl ZeroDivisionError"
    by (simp add: get_accuracy_def)
  have two: "fst (get_accuracy t [b1, b2]) = Inr (Finite (75/100))"
    if a: "0 < num_steps (net t)
        \<and> b_size b1 = 3 \<and> b_acc b1 = 1 \<and> b_size b2 = 1 \<and> b_acc b2 = 0"
  proof -
    have "[b1, b2] \<noteq> []" and "\<forall>b\<in>set [b1, b2]. 0 < b_size b" using a by simp_all
    then show ?thesis using get_accuracy_value [of t "[b1, b2]"] a by simp
  qed
  then show "fst (get_accuracy t [b1, b2]) = Inr (Finite (75/100))"
    if "0 < num_steps (net t)
        \<and> b_size b1 = 3 \<and> b_acc b1 = 1 \<and> b_size b2 = 1 \<and> b_acc b2 = 0"
    using that by blast
  show "fst (get_accuracy t [b1, b2]) \<noteq> Inr (Finite ((b_acc b1 + b_acc b2) / 2))"
    if a: "0 < num_steps (net t)
        \<and> b_size b1 = 3 \<and> b_acc b1 = 1 \<and> b_size b2 = 1 \<and> b_acc b2 = 0"
    using two [OF a] a by simp
  show "\<exists>v. fst (get_accuracy t bs) = Inr (Finite v) \<and> 0 \<le> v \<and> v \<le> 1"
    if a: "0 < num_steps (net t) \<and> bs \<noteq> []
        \<and> (\<forall>b\<in>set bs. 0 < b_size b \<and> 0 \<le> b_acc b \<and> b_acc b \<le> 1)"
  proof -
    have v: "fst (get_accuracy t bs) =
        Inr (Finite (sum_list (map (\<lambda>b. b_acc b * real (b_size b)) bs)
                      / real (sum_list (map b_size bs))))"
      and "0 < sum_list (map b_size bs)"
      using get_accuracy_value [of t bs] a by blast+
    then have "0 < real (sum_list (map b_size bs))" by simp
    moreover have "\<forall>b\<in>set bs. 0 \<le> b_acc b \<and> b_acc b \<le> 1" using a by simp
    ultimately show ?thesis using weighted_sum_bounds [of bs] v
      by (simp add: divide_le_eq)
  qed
qed

theorem weighted_accuracy_witness:
  "(case construct_trainer 1 5 1 (9/10) 30 (2/1000) 300 (5/100) of
      Inl e \<Rightarrow> False
    | Inr t \<Rightarrow>
        0 < num_steps (net t)
      \<and> fst (get_accuracy t
          [\<lparr>b_size = 3, b_spikes = (\<lambda>step l. 0), b_loss = Finite 1, b_acc = 1\<rparr>,
           \<lparr>b_size = 1, b_spikes = (\<lambda>step l. 0), b_loss = Finite 1, b_acc = 0\<rparr>])
          = Inr (Finite (3/4)))"
proof -
  let ?T = "\<lparr>net = \<lparr>num_steps = 1, num_hidden_neurons = 5, num_hidden_layers = 1,
         layers = [FirstLayer, OutputLayer],
         total_spike_count = 0, forward_count = 0, training = True, param_updates = 0\<rparr>,
        num_epochs = 30, t_num_steps = 1, learning_rate = 2/1000,
        patience = 300, sig_improvement = 5/100, loss_hist = [],
        acc_hist = [], epochs = 0, batches = 0\<rparr>"
  let ?B1 = "\<lparr>b_size = 3, b_spikes = (\<lambda>step l. 0), b_loss = Finite 1, b_acc = 1\<rparr>"
  let ?B2 = "\<lparr>b_size = 1, b_spikes = (\<lambda>step l. 0), b_loss = Finite 1, b_acc = 0\<rparr>"
  have c: "construct_trainer 1 5 1 (9/10) 30 (2/1000) 300 (5/100) = Inr ?T"
    by (simp add: construct_trainer_def Net_init_def SNNTrainer_init_def reset_spikes_def
        layer_at_def eval_nat_numeral)
  have "fst (get_accuracy ?T [?B1, ?B2]) = Inr (Finite (75/100))"
    using weighted_accuracy [of ?T "[?B1, ?B2]" ?B1 ?B2] by simp
  then show ?thesis unfolding c by simp
qed

text \<open>
  The claim as worded fails on the empty sequence of batches: both sums are 0 and the
  division raises.
\<close>

theorem weighted_accuracy_counterexample:
  "(case construct_trainer 1 5 1 (9/10) 30 (2/1000) 300 (5/100) of
      Inl e \<Rightarrow> False
    | Inr t \<Rightarrow> fst (get_accuracy t []) = Inl ZeroDivisionError)"
  by (simp add: construct_trainer_def Net_init_def SNNTrainer_init_def reset_spikes_def
      get_accuracy_def)

text \<open>
  C8, as the code has it. The routine changes no field of the trainer but the network:
  the loss history, the accuracy history, the epoch and batch counters, the patience and
  the threshold stay, and so do the best loss and the stall counter of a training state
  around it. It applies no parameter update and leaves the layers alone. It does change
  the network: it switches it to evaluation mode, and on a network with at least one
  time step every batch is a forward pass that counts itself and adds its spikes, those
  of every layer at every time step, to the spike total.
\<close>

theorem get_accuracy_frame:
  "loss_hist (snd (get_accuracy t bs)) = loss_hist t
   \<and> acc_hist (snd (get_accuracy t bs)) = acc_hist t
   \<and> epochs (snd (get_accuracy t bs)) = epochs t
   \<and> batches (snd (get_accuracy t bs)) = batches t
   \<and> patience (snd (get_accuracy t bs)) = patience t
   \<and> sig_improvement (snd (get_accuracy t bs)) = sig_improvement t
   \<and> best_loss (s\<lparr>tr := snd (get_accuracy (tr s) bs)\<rparr>) = best_loss s
   \<and> loss_counter (s\<lparr>tr := snd (get_accuracy (tr s) bs)\<rparr>) = loss_counter s
   \<and> param_updates (net (snd (get_accuracy t bs))) = param_updates (net t)
   \<and> layers (net (snd (get_accuracy t bs))) = layers (net t)
   \<and> training (net (snd (get_accuracy t bs))) = False
   \<and> (0 < num_steps (net t) \<longrightarrow>
        forward_count (net (snd (get_accuracy t bs))) = forward_count (net t) + length bs
      \<and> total_spike_count (net (snd (get_accuracy t bs))) =
          total_spike_count (net t)
            + sum_list (map (\<lambda>b. \<Sum>step = 0..<nat (num_steps (net t)).
                                    \<Sum>l = 0..<length (layers (net t)). b_spikes b step l) bs))"
proof -
  let ?n0 = "(net t)\<lparr>training := False\<rparr>"
  have fr: "param_updates (net (snd (get_accuracy t bs))) = param_updates (net t)
      \<and> layers (net (snd (get_accuracy t bs))) = layers (net t)
      \<and> training (net (snd (get_accuracy t bs))) = False"
    using accuracy_loop_frame [of bs ?n0 "Finite 0" 0] by (simp add: get_accuracy_state)
  have cnt: "forward_count (net (snd (get_accuracy t bs))) = forward_count (net t) + length bs
      \<and> total_spike_count (net (snd (get_accuracy t bs))) =
          total_spike_count (net t)
            + sum_list (map (\<lambda>b. \<Sum>step = 0..<nat (num_steps (net t)).
                                    \<Sum>l = 0..<length (layers (net t)). b_spikes b step l) bs)"
    if "0 < num_steps (net t)"
  proof -
    have r: "\<not> forward_raises ?n0" using that by (simp add: forward_raises_def)
    have "fst (snd (accuracy_loop bs (?n0, Finite 0, 0))) =
        fold (\<lambda>b n'. forward n' (b_spikes b)) bs ?n0"
      using r by (rule accuracy_loop_net)
    then show ?thesis
      using fold_forward_frame [of bs ?n0] fold_forward_spikes [of bs ?n0]
      by (simp add: get_accuracy_state)
  qed
  show ?thesis using fr cnt by (simp add: get_accuracy_state)
qed

text \<open>
  One evaluated batch on a network of two layers and one time step, two spikes from each
  layer: the count of forward passes goes from 0 to 1 and the spike total from 0 to 4.
\<close>

theorem get_accuracy_frame_witness:
  "(case construct_trainer 1 5 1 (9/10) 30 (2/1000) 300 (5/100) of
      Inl e \<Rightarrow> False
    | Inr t \<Rightarrow>
        0 < num_steps (net t)
      \<and> forward_count (net (snd (get_accuracy t
          [\<lparr>b_size = 1, b_spikes = (\<lambda>step l. 2), b_loss = Finite 1, b_acc = 1\<rparr>]))) = 1
      \<and> total_spike_count (net (snd (get_accuracy t
          [\<lparr>b_size = 1, b_spikes = (\<lambda>step l. 2), b_loss = Finite 1, b_acc = 1\<rparr>]))) = 4)"
proof -
  let ?T = "\<lparr>net = \<lparr>num_steps = 1, num_hidden_neurons = 5, num_hidden_layers = 1,
         layers = [FirstLayer, OutputLayer],
         total_spike_count = 0, forward_count = 0, training = True, param_updates = 0\<rparr>,
        num_epochs = 30, t_num_steps = 1, learning_rate = 2/1000,
        patience = 300, sig_improvement = 5/100, loss_hist = [],
        acc_hist = [], epochs = 0, batches = 0\<rparr>"
  let ?B = "\<lparr>b_size = 1, b_spikes = (\<lambda>step l. 2), b_loss = Finite 1, b_acc = 1\<rparr>"
  have c: "construct_trainer 1 5 1 (9/10) 30 (2/1000) 300 (5/100) = Inr ?T"
    by (simp add: construct_trainer_def Net_init_def SNNTrainer_init_def reset_spikes_def
        layer_at_def eval_nat_numeral)
  have "forward_count (net (snd (get_accuracy ?T [?B]))) = 1
      \<and> total_spike_count (net (snd (get_accuracy ?T [?B]))) = 4"
    using get_accuracy_frame [of ?T "[?B]"] by simp
  then show ?thesis unfolding c by simp
qed

text \<open>
  The claim as worded fails: the routine is not free of side effects on the model. After
  one evaluated batch the trainer differs from the one before, and
  \<^verbatim>\<open>get_spikes_per_digit\<close>, which raised before the call, returns 4 after it.
\<close>

theorem get_accuracy_frame_counterexample:
  "(case construct_trainer 1 5 1 (9/10) 30 (2/1000) 300 (5/100) of
      Inl e \<Rightarrow> False
    | Inr t \<Rightarrow>
        snd (get_accuracy t
          [\<lparr>b_size = 1, b_spikes = (\<lambda>step l. 2), b_loss = Finite 1, b_acc = 1\<rparr>]) \<noteq> t
      \<and> get_spikes_per_digit (net t) = Inl ZeroDivisionError
      \<and> get_spikes_per_digit (net (snd (get_accuracy t
          [\<lparr>b_size = 1, b_spikes = (\<lambda>step l. 2), b_loss = Finite 1, b_acc = 1\<rparr>]))) = Inr 4)"
  by (simp add: construct_trainer_def Net_init_def SNNTrainer_init_def reset_spikes_def
      get_accuracy_def forward_def forward_raises_def get_spikes_per_digit_def layer_at_def
      eval_nat_numeral)

end
